theory Spec2Isabelle
  imports Complex_Main "HOL-Library.Multiset"
begin

section \<open>Common data\<close>

text \<open>
  A calendar day is its day number (an \<open>int\<close>): \<open>pd.date_range(..., freq='D')\<close> steps
  by one. Sales values are modelled as real numbers; the rounding of floating-point
  addition is not part of the model. A float cell that may hold NaN is a
  \<open>real option\<close>, \<open>None\<close> being NaN.
\<close>

type_synonym date = int
type_synonym cell = "real option"

datatype error =
    ValueError string
  | KeyError string
  | LibraryError string

section \<open>V1: \<open>load_and_preprocess_data\<close>\<close>

text \<open>A row of the transaction log, reduced to the two columns the function reads.\<close>

record order_row =
  Order_Date :: date
  Sales :: real

text \<open>A row of \<open>daily_sales\<close> after the rename to \<open>ds\<close>, \<open>y\<close>.\<close>

record daily =
  ds :: date
  y :: real

text \<open>
  \<open>df.groupby('Order Date')['Sales'].sum().reset_index()\<close>: one row per distinct date,
  the groups in ascending order of the key, each with the sum of its values.
\<close>

definition group_sum :: "order_row list \<Rightarrow> date \<Rightarrow> real" where
  "group_sum df d = sum_list (map Sales (filter (\<lambda>r. Order_Date r = d) df))"

definition groupby_sum :: "order_row list \<Rightarrow> (date \<times> real) list" where
  "groupby_sum df = map (\<lambda>d. (d, group_sum df d)) (sort (remdups (map Order_Date df)))"

text \<open>\<open>pd.date_range(start, end, freq='D')\<close>: every day from \<open>start\<close> to \<open>end\<close>, both included.\<close>

definition date_range :: "date \<Rightarrow> date \<Rightarrow> date list" where
  "date_range start end = [start..end]"

text \<open>
  \<open>set_index('Order Date').reindex(full_date_range, fill_value=0)\<close>: one row per label of
  the new index, with the value of the old row of that label, or 0 where there is none.
\<close>

definition reindex :: "date list \<Rightarrow> (date \<times> real) list \<Rightarrow> daily list" where
  "reindex idx tbl =
     map (\<lambda>d. \<lparr>ds = d, y = (case map_of tbl d of Some v \<Rightarrow> v | None \<Rightarrow> 0)\<rparr>) idx"

text \<open>
  The argument is the content of the CSV file, \<open>None\<close> when the file is not found (the
  function then returns \<open>None\<close>). On a file with no rows the minimum and the maximum of
  the date column are NaT, and \<open>pd.date_range\<close> raises.
\<close>

definition load_and_preprocess_data :: "order_row list option \<Rightarrow> error + daily list option" where
  "load_and_preprocess_data file =
     (case file of
        None \<Rightarrow> Inr None
      | Some df \<Rightarrow>
          (let daily_sales = groupby_sum df in
           if daily_sales = [] then Inl (ValueError ''Neither `start` nor `end` can be NaT'')
           else
             (let full_date_range =
                    date_range (Min (set (map fst daily_sales))) (Max (set (map fst daily_sales)))
              in Inr (Some (reindex full_date_range daily_sales)))))"

section \<open>V1: \<open>detect_anomalies\<close>\<close>

datatype direction = Spike | Drop

text \<open>
  A row of the frame \<open>detect_anomalies\<close> returns: the columns \<open>ds\<close> (the index) and \<open>y\<close>
  of its argument and the five columns it adds. \<open>anomaly_type\<close> is NaN (\<open>None\<close>),
  \<open>'Spike'\<close> or \<open>'Drop'\<close>.
\<close>

record scored = daily +
  residuals :: cell
  stl_anomaly :: int
  iforest_anomaly_score :: real
  iforest_anomaly :: int
  anomaly_type :: "direction option"

text \<open>
  The two library calls are parameters of the model.
  \<^item> \<open>STL(series, period, robust).fit().resid\<close>: the residuals, or the message of the
    exception it raised.
  \<^item> \<open>IForest(contamination, random_state).fit(X)\<close>: \<open>decision_scores_\<close> and \<open>labels_\<close>,
    or the exception. Its third argument is the state of the process-wide random
    generator when the call is made, which differs from one run to the next; a library
    that is given \<open>random_state\<close> has no need to read it.
\<close>

type_synonym stl_lib = "real list \<Rightarrow> nat \<Rightarrow> bool \<Rightarrow> string + cell list"
type_synonym 'g iforest_lib =
  "real \<Rightarrow> nat option \<Rightarrow> 'g \<Rightarrow> cell list list \<Rightarrow> error + real list \<times> int list"

text \<open>
  \<open>data['residuals'] = res.resid\<close> assigns a Series: it is aligned on the index of the
  frame, a label without a value getting NaN.
\<close>

definition align :: "nat \<Rightarrow> cell list \<Rightarrow> cell list" where
  "align n col = take n (col @ replicate (n - length col) None)"

text \<open>
  \<open>threshold = 3 * data['residuals'].std()\<close> and
  \<open>np.where(np.abs(data['residuals']) > threshold, 1, 0)\<close>. \<open>Series.std()\<close> is the square
  root of the sample variance (ddof = 1) of the values that are not NaN, and NaN when
  there are fewer than two. The model keeps the variance and compares the squares,
  \<open>x\<^sup>2 > 9 * variance\<close>, which is the same test (lemma \<open>stl_flag_threshold\<close>) and can be
  evaluated. A comparison with NaN is false.
\<close>

definition variance :: "cell list \<Rightarrow> cell" where
  "variance col =
     (let vs = List.map_filter id col; n = length vs in
      if n < 2 then None
      else (let mean = sum_list vs / real n in
            Some (sum_list (map (\<lambda>v. (v - mean)\<^sup>2) vs) / real (n - 1))))"

definition stl_flag :: "cell \<Rightarrow> cell \<Rightarrow> int" where
  "stl_flag r var =
     (case (r, var) of
        (Some x, Some v) \<Rightarrow> if x\<^sup>2 > 9 * v then 1 else 0
      | _ \<Rightarrow> 0)"

definition gt0 :: "cell \<Rightarrow> bool" where
  "gt0 r = (case r of Some x \<Rightarrow> x > 0 | None \<Rightarrow> False)"

definition lt0 :: "cell \<Rightarrow> bool" where
  "lt0 r = (case r of Some x \<Rightarrow> x < 0 | None \<Rightarrow> False)"

text \<open>
  The column \<open>anomaly_type\<close> of one row: NaN first, then the two \<open>data.loc[...] = ...\<close>
  assignments in the order of the source.
\<close>

definition classify :: "int \<Rightarrow> cell \<Rightarrow> direction option" where
  "classify label r =
     (let t0 = None;
          t1 = (if label = 1 \<and> gt0 r then Some Spike else t0);
          t2 = (if label = 1 \<and> lt0 r then Some Drop else t1)
      in t2)"

definition scored_row :: "daily \<Rightarrow> cell \<Rightarrow> int \<Rightarrow> real \<Rightarrow> int \<Rightarrow> scored" where
  "scored_row p r flag score label =
     \<lparr>ds = ds p, y = y p, residuals = r, stl_anomaly = flag,
      iforest_anomaly_score = score, iforest_anomaly = label,
      anomaly_type = classify label r\<rparr>"

fun scored_rows :: "daily list \<Rightarrow> cell list \<Rightarrow> int list \<Rightarrow> real list \<Rightarrow> int list \<Rightarrow> scored list" where
  "scored_rows (p # ps) (r # rs) (f # fs) (s # ss) (l # ls) =
     scored_row p r f s l # scored_rows ps rs fs ss ls"
| "scored_rows _ _ _ _ _ = []"

text \<open>
  The result is the list of warnings shown (\<open>st.warning\<close>) and the returned frame or the
  exception that leaves the function.

  The \<open>try\<close> block either adds the columns \<open>residuals\<close> and \<open>stl_anomaly\<close>, or, in its
  \<open>except\<close> branch, warns and adds \<open>stl_anomaly\<close> only. The test
  \<open>data['residuals'] is not None\<close> that follows first evaluates \<open>data['residuals']\<close>: a
  KeyError when the frame has no such column, and otherwise a Series, which is never
  \<open>None\<close>, so that the one-column \<open>X\<close> is always replaced by the two-column matrix and
  never reaches the model. Assigning a column of the wrong length raises a ValueError.
\<close>

definition detect_anomalies ::
  "stl_lib \<Rightarrow> 'g iforest_lib \<Rightarrow> 'g \<Rightarrow> daily list \<Rightarrow> string list \<times> (error + scored list)" where
  "detect_anomalies STL IForest g data =
     (let ys = map y data; n = length data in
      case STL ys 7 True of
        Inl e \<Rightarrow>
          (let stl_col = replicate n (0::int);
               X = map (\<lambda>v. [Some v]) ys
           in ([''Warning: STL decomposition failed. '' @ e], Inl (KeyError ''residuals'')))
      | Inr resid \<Rightarrow>
          (let res_col = align n resid;
               var = variance res_col;
               stl_col = map (\<lambda>r. stl_flag r var) res_col;
               X = map2 (\<lambda>v r. [Some v, r]) ys res_col
           in ([],
               case IForest (5 / 100) (Some 42) g X of
                 Inl e \<Rightarrow> Inl e
               | Inr (decision_scores, labels) \<Rightarrow>
                   if length decision_scores = n \<and> length labels = n
                   then Inr (scored_rows data res_col stl_col decision_scores labels)
                   else Inl (ValueError ''Length of values does not match length of index''))))"

section \<open>V1: the tables of the dashboard\<close>

text \<open>\<open>anomalies\<close>, \<open>spikes\<close> and \<open>drops\<close> as the script selects them for the plot.\<close>

definition anomalies :: "scored list \<Rightarrow> scored list" where
  "anomalies rows = filter (\<lambda>r. iforest_anomaly r = 1) rows"

definition spikes :: "scored list \<Rightarrow> scored list" where
  "spikes rows = filter (\<lambda>r. anomaly_type r = Some Spike) (anomalies rows)"

definition drops :: "scored list \<Rightarrow> scored list" where
  "drops rows = filter (\<lambda>r. anomaly_type r = Some Drop) (anomalies rows)"

text \<open>
  \<open>sort_values(col, ascending=False)\<close> with the default \<open>kind='quicksort'\<close>: pandas
  reverses the rows, sorts them ascending on the one column and reverses the result.
  numpy leaves the order of equal keys open for this kind; the model takes the insertion
  sort (\<open>sort_key\<close>) that numpy's quicksort runs on a partition of at most 16 elements.
  No other column takes part in the comparison.
\<close>

definition sort_values_desc :: "('a \<Rightarrow> real) \<Rightarrow> 'a list \<Rightarrow> 'a list" where
  "sort_values_desc col rows = rev (sort_key col (rev rows))"

definition top_anomalies :: "scored list \<Rightarrow> scored list" where
  "top_anomalies rows =
     sort_values_desc iforest_anomaly_score (filter (\<lambda>r. iforest_anomaly r = 1) rows)"

section \<open>V2: the dataset and the forecasting library\<close>

text \<open>
  A row of \<open>train.csv\<close>: \<open>date\<close>, \<open>store\<close>, \<open>item\<close>, \<open>sales\<close>. The key columns are a record
  of their own, which the rows of the combined forecast extend as well.
\<close>

record keyed =
  store :: int
  item :: int

record sale = keyed +
  date :: date
  sales :: real

text \<open>A row of the frame \<open>m.predict(future)\<close> returns, reduced to the four columns the
  dashboard reads, and the same row with the \<open>store\<close> and \<open>item\<close> columns added.\<close>

record prediction =
  pred_ds :: date
  pred_yhat :: real
  pred_yhat_lower :: real
  pred_yhat_upper :: real

record forecast_row = keyed +
  ds_fc :: date
  yhat :: real
  yhat_lower :: real
  yhat_upper :: real

text \<open>
  The forecasting library is a parameter of the model: a record of its five entry
  points. \<open>'m\<close> is a fitted model, \<open>'cv\<close> the frame of \<open>cross_validation\<close>, \<open>'p\<close> the frame
  of \<open>performance_metrics\<close>, and \<open>'g\<close> the state of the process-wide random generator.
  The script seeds nothing, so a call that draws random numbers (the library samples
  the bounds of its uncertainty interval) draws them from that generator: such an entry
  point takes the state of the generator when it is called and returns, with its result
  or the exception it raised, the state it leaves. \<open>make_future_dataframe\<close> only lists
  dates. \<open>rename(columns={'date': 'ds', 'sales': 'y'})\<close> changes two labels and no value:
  the frame handed to \<open>fit\<close> keeps the row type \<open>sale\<close>, \<open>date\<close> read as \<open>ds\<close> and \<open>sales\<close>
  as \<open>y\<close>.
\<close>

record ('m, 'cv, 'p, 'g) prophet =
  fit :: "sale list \<Rightarrow> 'g \<Rightarrow> (error + 'm) \<times> 'g"
  make_future_dataframe :: "'m \<Rightarrow> nat \<Rightarrow> date list"
  predict :: "'m \<Rightarrow> date list \<Rightarrow> 'g \<Rightarrow> (error + prediction list) \<times> 'g"
  cross_validation :: "'m \<Rightarrow> nat \<Rightarrow> nat \<Rightarrow> nat \<Rightarrow> 'g \<Rightarrow> (error + 'cv) \<times> 'g"
  performance_metrics :: "'cv \<Rightarrow> 'g \<Rightarrow> (error + 'p) \<times> 'g"

section \<open>V2: \<open>load_and_forecast_data\<close>\<close>

text \<open>\<open>df[['store', 'item']].drop_duplicates()\<close>: the first occurrence of every pair, in
  the order of the rows.\<close>

fun drop_duplicates :: "'a list \<Rightarrow> 'a list \<Rightarrow> 'a list" where
  "drop_duplicates seen [] = []"
| "drop_duplicates seen (x # xs) =
     (if x \<in> set seen then drop_duplicates seen xs
      else x # drop_duplicates (x # seen) xs)"

definition all_pairs :: "sale list \<Rightarrow> (int \<times> int) list" where
  "all_pairs df = drop_duplicates [] (map (\<lambda>r. (store r, item r)) df)"

text \<open>\<open>df[(df['store'] == store) & (df['item'] == item)]\<close>\<close>

definition series_of :: "sale list \<Rightarrow> int \<Rightarrow> int \<Rightarrow> sale list" where
  "series_of df s i = filter (\<lambda>r. store r = s \<and> item r = i) df"

definition with_key :: "int \<Rightarrow> int \<Rightarrow> prediction \<Rightarrow> forecast_row" where
  "with_key s i p =
     \<lparr>store = s, item = i, ds_fc = pred_ds p, yhat = pred_yhat p,
      yhat_lower = pred_yhat_lower p, yhat_upper = pred_yhat_upper p\<rparr>"

text \<open>
  The \<open>for\<close> loop over \<open>all_pairs\<close>, with \<open>all_forecasts\<close> as accumulator and the state of
  the generator passed from one library call to the next. No statement of its body is
  inside a \<open>try\<close>: an exception of \<open>fit\<close> or \<open>predict\<close> leaves the loop and the function.
\<close>

fun forecast_loop ::
  "('m, 'cv, 'p, 'g) prophet \<Rightarrow> sale list \<Rightarrow> (int \<times> int) list \<Rightarrow> forecast_row list list \<Rightarrow>
     'g \<Rightarrow> (error + forecast_row list list) \<times> 'g" where
  "forecast_loop L df [] all_forecasts g = (Inr all_forecasts, g)"
| "forecast_loop L df ((s, i) # pairs) all_forecasts g =
     (let time_series = series_of df s i in
      case fit L time_series g of
        (Inl e, g1) \<Rightarrow> (Inl e, g1)
      | (Inr m, g1) \<Rightarrow>
          (let future = make_future_dataframe L m 365 in
           case predict L m future g1 of
             (Inl e, g2) \<Rightarrow> (Inl e, g2)
           | (Inr forecast, g2) \<Rightarrow>
               forecast_loop L df pairs (all_forecasts @ [map (with_key s i) forecast]) g2))"

text \<open>
  The argument \<open>file\<close> is the content of \<open>train.csv\<close>, \<open>None\<close> when it is not found (the
  function then returns \<open>(None, None)\<close>). \<open>pd.concat\<close> of an empty list raises.
\<close>

definition load_and_forecast_data ::
  "('m, 'cv, 'p, 'g) prophet \<Rightarrow> sale list option \<Rightarrow> 'g \<Rightarrow>
     (error + (sale list option \<times> forecast_row list option)) \<times> 'g" where
  "load_and_forecast_data L file g =
     (case file of
        None \<Rightarrow> (Inr (None, None), g)
      | Some df \<Rightarrow>
          (case forecast_loop L df (all_pairs df) [] g of
             (Inl e, g') \<Rightarrow> (Inl e, g')
           | (Inr all_forecasts, g') \<Rightarrow>
               if all_forecasts = [] then (Inl (ValueError ''No objects to concatenate''), g')
               else (Inr (Some df, Some (concat all_forecasts)), g')))"

section \<open>V2: \<open>get_backtest_metrics\<close>\<close>

text \<open>The function seeds no generator either: the three library calls go on from the
  state of the process-wide generator in which the function is called.\<close>

definition get_backtest_metrics ::
  "('m, 'cv, 'p, 'g) prophet \<Rightarrow> sale list \<Rightarrow> 'g \<Rightarrow> (error + 'p) \<times> 'g" where
  "get_backtest_metrics L df g =
     (let sample_df = series_of df 1 1 in
      case fit L sample_df g of
        (Inl e, g1) \<Rightarrow> (Inl e, g1)
      | (Inr m, g1) \<Rightarrow>
          (case cross_validation L m 1095 180 90 g1 of
             (Inl e, g2) \<Rightarrow> (Inl e, g2)
           | (Inr df_cv, g2) \<Rightarrow> performance_metrics L df_cv g2))"

section \<open>V2: one run of the script\<close>

text \<open>
  Streamlit runs the whole script once when the page is loaded and once more after every
  interaction. What one run reads from the page: the two select boxes and whether this
  run was started by a click on \<open>Run Backtesting\<close>.
\<close>

record widgets =
  selected_store :: int
  selected_item :: int
  button :: bool

text \<open>
  What outlives a run: the two \<open>st.cache_data\<close> caches (\<open>load_and_forecast_data\<close> has no
  argument, so its cache has one entry; that of \<open>get_backtest_metrics\<close> is keyed by its
  argument), the entry \<open>df_metrics\<close> of \<open>st.session_state\<close>, the state of the process-wide
  random generator, and, for the statements about what is computed when, the list of the
  cached functions whose bodies were executed, most recent last.
\<close>

datatype call = Ran_load_and_forecast_data | Ran_get_backtest_metrics

record ('p, 'g) app =
  cache_forecast :: "(sale list option \<times> forecast_row list option) option"
  cache_backtest :: "(sale list \<times> 'p) list"
  df_metrics :: "'p option"
  calls :: "call list"
  generator :: 'g

text \<open>The state before the first run, the generator in the state \<open>g\<close> the process started
  it in.\<close>

definition fresh :: "'g \<Rightarrow> ('p, 'g) app" where
  "fresh g =
     \<lparr>cache_forecast = None, cache_backtest = [], df_metrics = None, calls = [],
      generator = g\<rparr>"

text \<open>What a completed run shows: the two filtered frames of view 1 and the metrics of
  view 2 (\<open>None\<close>: the hint to click the button).\<close>

record 'p page =
  forecast_filtered :: "forecast_row list"
  historical_filtered :: "sale list"
  metrics_shown :: "'p option"

text \<open>A call of a cached function: the stored value when there is one, else the body is
  executed, on the generator as it is, and its value stored; an exception is not
  stored.\<close>

definition cached_load_and_forecast_data ::
  "('m, 'cv, 'p, 'g) prophet \<Rightarrow> sale list option \<Rightarrow> ('p, 'g) app \<Rightarrow>
     ('p, 'g) app \<times> (error + (sale list option \<times> forecast_row list option))" where
  "cached_load_and_forecast_data L file a =
     (case cache_forecast a of
        Some v \<Rightarrow> (a, Inr v)
      | None \<Rightarrow>
          (case load_and_forecast_data L file (generator a) of
             (r, g') \<Rightarrow>
               (let a' = a\<lparr>calls := calls a @ [Ran_load_and_forecast_data], generator := g'\<rparr> in
                case r of
                  Inl e \<Rightarrow> (a', Inl e)
                | Inr v \<Rightarrow> (a'\<lparr>cache_forecast := Some v\<rparr>, Inr v))))"

definition cached_get_backtest_metrics ::
  "('m, 'cv, 'p, 'g) prophet \<Rightarrow> sale list \<Rightarrow> ('p, 'g) app \<Rightarrow> ('p, 'g) app \<times> (error + 'p)" where
  "cached_get_backtest_metrics L df a =
     (case map_of (cache_backtest a) df of
        Some v \<Rightarrow> (a, Inr v)
      | None \<Rightarrow>
          (case get_backtest_metrics L df (generator a) of
             (r, g') \<Rightarrow>
               (let a' = a\<lparr>calls := calls a @ [Ran_get_backtest_metrics], generator := g'\<rparr> in
                case r of
                  Inl e \<Rightarrow> (a', Inl e)
                | Inr v \<Rightarrow> (a'\<lparr>cache_backtest := (df, v) # cache_backtest a\<rparr>, Inr v))))"

text \<open>
  The script from \<open>df_data, df_forecast = load_and_forecast_data()\<close> to its end. An
  exception ends the run; what was stored before it stays. The button exists only in
  the branch where both frames are there, so a click is read only there.
\<close>

definition run_script ::
  "('m, 'cv, 'p, 'g) prophet \<Rightarrow> sale list option \<Rightarrow> widgets \<Rightarrow> ('p, 'g) app \<Rightarrow>
     ('p, 'g) app \<times> (error + 'p page option)" where
  "run_script L file w a =
     (case cached_load_and_forecast_data L file a of
        (a1, Inl e) \<Rightarrow> (a1, Inl e)
      | (a1, Inr (Some df_data, Some df_forecast)) \<Rightarrow>
          (let sidebar =
                 (if button w then
                    (case cached_get_backtest_metrics L df_data a1 of
                       (a2, Inl e) \<Rightarrow> (a2, Some e)
                     | (a2, Inr m) \<Rightarrow> (a2\<lparr>df_metrics := Some m\<rparr>, None))
                  else (a1, None))
           in case sidebar of
                (a2, Some e) \<Rightarrow> (a2, Inl e)
              | (a2, None) \<Rightarrow>
                  (a2, Inr (Some
                     \<lparr>forecast_filtered =
                        filter (\<lambda>r. store r = selected_store w \<and> item r = selected_item w)
                          df_forecast,
                      historical_filtered =
                        filter (\<lambda>r. store r = selected_store w \<and> item r = selected_item w)
                          df_data,
                      metrics_shown = df_metrics a2\<rparr>)))
      | (a1, Inr _) \<Rightarrow> (a1, Inr None))"

text \<open>A session: the runs of the script one after the other, the first on a fresh state.\<close>

fun session ::
  "('m, 'cv, 'p, 'g) prophet \<Rightarrow> sale list option \<Rightarrow> widgets list \<Rightarrow> ('p, 'g) app \<Rightarrow>
     ('p, 'g) app" where
  "session L file [] a = a"
| "session L file (w # ws) a = session L file ws (fst (run_script L file w a))"

section \<open>Properties the claims are stated with\<close>

text \<open>The order the specification asks for: descending by score, and among equal scores
  the most recent date first.\<close>

definition by_score_then_recent :: "scored list \<Rightarrow> bool" where
  "by_score_then_recent rows =
     sorted_wrt (\<lambda>a b. iforest_anomaly_score a > iforest_anomaly_score b \<or>
                       (iforest_anomaly_score a = iforest_anomaly_score b \<and> ds a \<ge> ds b)) rows"

text \<open>What the library promises for \<open>random_state\<close>: with a seed, the fit does not depend
  on the state of the process-wide generator.\<close>

definition honours_random_state :: "'g iforest_lib \<Rightarrow> bool" where
  "honours_random_state IForest \<longleftrightarrow>
     (\<forall>c s g g' X. IForest c (Some s) g X = IForest c (Some s) g' X)"

text \<open>What one pass of the loop body appends for the pair \<open>(s, i)\<close>, in some state of the
  generator.\<close>

definition forecast_of ::
  "('m, 'cv, 'p, 'g) prophet \<Rightarrow> sale list \<Rightarrow> int \<times> int \<Rightarrow> forecast_row list \<Rightarrow> bool" where
  "forecast_of L df k rows \<longleftrightarrow>
     (\<exists>g m g1 forecast g2. fit L (series_of df (fst k) (snd k)) g = (Inr m, g1) \<and>
        predict L m (make_future_dataframe L m 365) g1 = (Inr forecast, g2) \<and>
        rows = map (with_key (fst k) (snd k)) forecast)"

text \<open>The data loads and the backtest returns, whatever the state of the generator.\<close>

definition always_loads :: "('m, 'cv, 'p, 'g) prophet \<Rightarrow> sale list option \<Rightarrow> sale list \<Rightarrow> bool" where
  "always_loads L file df_data \<longleftrightarrow>
     (\<forall>g. \<exists>df_forecast g'.
        load_and_forecast_data L file g = (Inr (Some df_data, Some df_forecast), g'))"

definition always_backtests :: "('m, 'cv, 'p, 'g) prophet \<Rightarrow> sale list \<Rightarrow> bool" where
  "always_backtests L df_data \<longleftrightarrow>
     (\<forall>g. \<exists>m g'. get_backtest_metrics L df_data g = (Inr m, g'))"

text \<open>A value that \<open>get_backtest_metrics\<close> returns on the data, in some state of the
  generator.\<close>

definition backtest_of :: "('m, 'cv, 'p, 'g) prophet \<Rightarrow> sale list \<Rightarrow> 'p \<Rightarrow> bool" where
  "backtest_of L df_data m \<longleftrightarrow> (\<exists>g g'. get_backtest_metrics L df_data g = (Inr m, g'))"

text \<open>The invariants of a session: \<open>clicked\<close> says whether a run so far was started by the
  button.\<close>

definition untriggered :: "bool \<Rightarrow> ('p, 'g) app \<Rightarrow> bool" where
  "untriggered clicked a \<longleftrightarrow>
     (\<not> clicked \<longrightarrow> df_metrics a = None \<and> Ran_get_backtest_metrics \<notin> set (calls a))"

definition cache_sound :: "('m, 'cv, 'p, 'g) prophet \<Rightarrow> sale list \<Rightarrow> ('p, 'g) app \<Rightarrow> bool" where
  "cache_sound L df_data a \<longleftrightarrow>
     (\<forall>v. cache_forecast a = Some v \<longrightarrow> (\<exists>f. v = (Some df_data, Some f))) \<and>
     (\<forall>v. map_of (cache_backtest a) df_data = Some v \<longrightarrow> backtest_of L df_data v)"

definition triggered :: "('m, 'cv, 'p, 'g) prophet \<Rightarrow> sale list \<Rightarrow> bool \<Rightarrow> ('p, 'g) app \<Rightarrow> bool" where
  "triggered L df_data clicked a \<longleftrightarrow>
     cache_sound L df_data a \<and>
     (clicked \<longrightarrow> (\<exists>m. df_metrics a = Some m \<and> backtest_of L df_data m))"

section \<open>Stand-ins for the libraries, and example inputs\<close>

definition log0 :: "order_row list" where
  "log0 = [\<lparr>Order_Date = 3, Sales = 10\<rparr>, \<lparr>Order_Date = 1, Sales = 5\<rparr>,
           \<lparr>Order_Date = 3, Sales = 5 / 2\<rparr>, \<lparr>Order_Date = 5, Sales = 1\<rparr>]"

text \<open>
  Concrete libraries on which the model is evaluated. \<open>stl_raises\<close> is a decomposition
  that fails; \<open>stl_demo\<close> takes 100 as trend plus seasonal component. \<open>iforest_demo\<close>
  scores a point by the distance of its value from 100, shifted by the random state (the
  seed when one is given, the state of the process-wide generator otherwise), and flags
  the values outside the interval from 50 to 100.
\<close>

definition stl_raises :: stl_lib where
  "stl_raises ys period robust = Inl ''decomposition failed''"

definition stl_demo :: stl_lib where
  "stl_demo ys period robust = Inr (map (\<lambda>v. Some (v - 100)) ys)"

definition iforest_demo :: "nat iforest_lib" where
  "iforest_demo contamination random_state g X =
     (let r = (case random_state of Some s \<Rightarrow> s | None \<Rightarrow> g);
          value_of = (\<lambda>row. case row of Some v # _ \<Rightarrow> v | _ \<Rightarrow> 100)
      in Inr (map (\<lambda>row. \<bar>value_of row - 100\<bar> + real r) X,
              map (\<lambda>row. if value_of row \<ge> 100 \<or> value_of row \<le> 50 then 1 else 0) X))"

definition grid3 :: "daily list" where
  "grid3 = [\<lparr>ds = 1, y = 100\<rparr>, \<lparr>ds = 2, y = 10000\<rparr>, \<lparr>ds = 3, y = 100\<rparr>]"

definition grid4 :: "daily list" where
  "grid4 = [\<lparr>ds = 1, y = 100\<rparr>, \<lparr>ds = 2, y = 10000\<rparr>, \<lparr>ds = 3, y = 0\<rparr>,
            \<lparr>ds = 4, y = 90\<rparr>]"

definition demo_rows :: "scored list" where
  "demo_rows =
     [\<lparr>ds = 1, y = 100, residuals = Some 0, stl_anomaly = 0,
       iforest_anomaly_score = 42, iforest_anomaly = 1, anomaly_type = None\<rparr>,
      \<lparr>ds = 2, y = 10000, residuals = Some 9900, stl_anomaly = 0,
       iforest_anomaly_score = 9942, iforest_anomaly = 1, anomaly_type = Some Spike\<rparr>,
      \<lparr>ds = 3, y = 0, residuals = Some (- 100), stl_anomaly = 0,
       iforest_anomaly_score = 142, iforest_anomaly = 1, anomaly_type = Some Drop\<rparr>,
      \<lparr>ds = 4, y = 90, residuals = Some (- 10), stl_anomaly = 0,
       iforest_anomaly_score = 52, iforest_anomaly = 0, anomaly_type = None\<rparr>]"

definition tied :: "scored list" where
  "tied = [\<lparr>ds = 1, y = 900, residuals = Some 800, stl_anomaly = 0,
            iforest_anomaly_score = 1 / 4, iforest_anomaly = 1, anomaly_type = Some Spike\<rparr>,
           \<lparr>ds = 2, y = 100, residuals = Some 0, stl_anomaly = 0,
            iforest_anomaly_score = 0, iforest_anomaly = 0, anomaly_type = None\<rparr>,
           \<lparr>ds = 3, y = 900, residuals = Some 800, stl_anomaly = 0,
            iforest_anomaly_score = 1 / 4, iforest_anomaly = 1, anomaly_type = Some Spike\<rparr>]"

text \<open>
  A concrete forecasting library on which the model is evaluated; the state of its
  generator is a counter. Its \<open>fit\<close> refuses a series of fewer than two rows and otherwise
  keeps the history as the model, drawing nothing; \<open>make_future_dataframe\<close> returns the
  dates of the history followed by the next \<open>periods\<close> days; \<open>predict\<close> returns the mean of
  the history with a band whose width is the number it draws; \<open>cross_validation\<close> refuses
  a history shorter than the initial window plus the horizon and otherwise records its
  three windows, the length of the history and the number it draws, which
  \<open>performance_metrics\<close> hands on. Every draw advances the counter by one.

  \<open>two_series\<close> has a series of two rows and one of a single row. \<open>history\<close> is 1200 days
  of store 1, item 1; \<open>good_series\<close> and \<open>other_series\<close> hold it next to one and to two
  other series.
\<close>

type_synonym demo_cv = "nat \<times> nat \<times> nat \<times> nat \<times> nat"

definition prophet_demo :: "(sale list, demo_cv, demo_cv, nat) prophet" where
  "prophet_demo =
     \<lparr>fit = (\<lambda>history g.
         (if length history < 2
          then Inl (ValueError ''Dataframe has less than 2 non-NaN rows.'')
          else Inr history, g)),
      make_future_dataframe = (\<lambda>m periods.
         (let history_dates = sort (remdups (map date m));
              last_date = Max (set history_dates)
          in history_dates @ [last_date + 1 .. last_date + int periods])),
      predict = (\<lambda>m future g.
         (let mean = sum_list (map sales m) / real (length m)
          in (Inr (map (\<lambda>d. \<lparr>pred_ds = d, pred_yhat = mean,
                                pred_yhat_lower = mean - real (Suc g),
                                pred_yhat_upper = mean + real (Suc g)\<rparr>) future),
              Suc g))),
      cross_validation = (\<lambda>m initial period horizon g.
         (if length m < initial + horizon
          then Inl (ValueError ''Less data than horizon after initial window.'')
          else Inr (initial, period, horizon, length m, g), Suc g)),
      performance_metrics = (\<lambda>df_cv g. (Inr df_cv, g))\<rparr>"

definition sale_row :: "int \<Rightarrow> int \<Rightarrow> date \<Rightarrow> real \<Rightarrow> sale" where
  "sale_row s i d v = \<lparr>store = s, item = i, date = d, sales = v\<rparr>"

definition two_series :: "sale list" where
  "two_series = [sale_row 1 1 1 10, sale_row 1 1 2 12, sale_row 1 2 1 7]"

definition history :: "sale list" where
  "history = map (\<lambda>d. sale_row 1 1 d 10) [1..1200]"

definition good_series :: "sale list" where
  "good_series = history @ [sale_row 2 1 1 7, sale_row 2 1 2 9]"

definition other_series :: "sale list" where
  "other_series =
     [sale_row 3 5 1 4, sale_row 3 5 2 6] @ history @
     [sale_row 4 5 1 3, sale_row 4 5 2 5]"

definition w_load :: widgets where
  "w_load = \<lparr>selected_store = 1, selected_item = 1, button = False\<rparr>"

definition w_click :: widgets where
  "w_click = \<lparr>selected_store = 2, selected_item = 1, button = True\<rparr>"

definition w_other_click :: widgets where
  "w_other_click = \<lparr>selected_store = 3, selected_item = 5, button = True\<rparr>"

section \<open>Grid builder: lemmas\<close>

lemma groupby_sum_keys: "map fst (groupby_sum df) = sort (remdups (map Order_Date df))"
  by (simp add: groupby_sum_def comp_def)

lemma groupby_sum_keys_set: "set (map fst (groupby_sum df)) = Order_Date ` set df"
  by (simp add: groupby_sum_keys)

lemma groupby_sum_distinct: "distinct (map fst (groupby_sum df))"
  by (simp add: groupby_sum_keys)

lemma groupby_sum_empty: "groupby_sum df = [] \<longleftrightarrow> df = []"
proof -
  have "groupby_sum df = [] \<longleftrightarrow> set (map fst (groupby_sum df)) = {}"
    by simp
  also have "\<dots> \<longleftrightarrow> df = []"
    unfolding groupby_sum_keys_set by simp
  finally show ?thesis .
qed

lemma groupby_sum_lookup:
  "map_of (groupby_sum df) d = (if d \<in> Order_Date ` set df then Some (group_sum df d) else None)"
proof -
  have "map_of (map (\<lambda>k. (k, group_sum df k)) ks) d =
          (if d \<in> set ks then Some (group_sum df d) else None)" for ks
    by (induction ks) auto
  from this [of "sort (remdups (map Order_Date df))"] show ?thesis
    by (simp add: groupby_sum_def)
qed

lemma reindex_dates: "map ds (reindex idx tbl) = idx"
  by (simp add: reindex_def comp_def)

lemma reindex_lookup:
  "distinct idx \<Longrightarrow> d \<in> set idx \<Longrightarrow>
     map_of (map (\<lambda>p. (ds p, y p)) (reindex idx tbl)) d =
       Some (case map_of tbl d of Some v \<Rightarrow> v | None \<Rightarrow> 0)"
  by (induction idx) (auto simp: reindex_def)

lemma date_range_sorted: "sorted_wrt (<) (date_range a b)"
  unfolding date_range_def by (simp add: sorted_wrt_iff_nth_less)

lemma date_range_length: "a \<le> b \<Longrightarrow> length (date_range a b) = nat (b - a) + 1"
  unfolding date_range_def by simp

section \<open>Grid builder: correctness\<close>

lemma log0_run:
  "load_and_preprocess_data (Some log0) =
     Inr (Some [\<lparr>ds = 1, y = 5\<rparr>, \<lparr>ds = 2, y = 0\<rparr>, \<lparr>ds = 3, y = 25 / 2\<rparr>,
                \<lparr>ds = 4, y = 0\<rparr>, \<lparr>ds = 5, y = 1\<rparr>])"
  by (simp add: load_and_preprocess_data_def log0_def groupby_sum_def group_sum_def
      reindex_def date_range_def upto.simps)

text \<open>
  C1. On a log that is not empty, \<open>load_and_preprocess_data\<close> returns a grid with
  \<open>(max_date - min_date).days + 1\<close> rows, whose dates are the days from the first to the
  last date of the log in strictly increasing order and without duplicates; at a date of
  the log the value is the sum of the log's values of that date, and at every other day
  between the first and the last date it is 0.
\<close>

theorem grid_builder_correct:
  assumes "df \<noteq> []"
  shows "\<exists>grid. load_and_preprocess_data (Some df) = Inr (Some grid)
     \<and> length grid = nat (Max (Order_Date ` set df) - Min (Order_Date ` set df)) + 1
     \<and> map ds grid = [Min (Order_Date ` set df) .. Max (Order_Date ` set df)]
     \<and> sorted_wrt (<) (map ds grid) \<and> distinct (map ds grid)
     \<and> (\<forall>d \<in> Order_Date ` set df.
           map_of (map (\<lambda>p. (ds p, y p)) grid) d = Some (group_sum df d))
     \<and> (\<forall>d. Min (Order_Date ` set df) \<le> d \<and> d \<le> Max (Order_Date ` set df)
              \<and> d \<notin> Order_Date ` set df \<longrightarrow>
           map_of (map (\<lambda>p. (ds p, y p)) grid) d = Some 0)"
proof -
  let ?D = "Order_Date ` set df"
  let ?lo = "Min ?D" and ?hi = "Max ?D"
  let ?grid = "reindex (date_range ?lo ?hi) (groupby_sum df)"
  have fin: "finite ?D" and ne: "?D \<noteq> {}"
    using assms by auto
  have lohi: "?lo \<le> ?hi"
    using fin ne by simp
  have run: "load_and_preprocess_data (Some df) = Inr (Some ?grid)"
    using assms by (simp add: load_and_preprocess_data_def Let_def groupby_sum_empty
        groupby_sum_keys_set del: set_map)
  have dates: "map ds ?grid = [?lo..?hi]"
    by (simp add: reindex_dates date_range_def)
  have len: "length ?grid = nat (?hi - ?lo) + 1"
    using date_range_length [OF lohi] by (simp add: reindex_def)
  have srt: "sorted_wrt (<) (map ds ?grid)"
    by (simp add: reindex_dates date_range_sorted)
  have dist: "distinct (map ds ?grid)"
    by (simp add: reindex_dates date_range_def)
  have inside: "d \<in> set (date_range ?lo ?hi)" if "d \<in> ?D" for d
    using that fin by (simp add: date_range_def)
  have present: "map_of (map (\<lambda>p. (ds p, y p)) ?grid) d = Some (group_sum df d)"
    if "d \<in> ?D" for d
    using reindex_lookup [of "date_range ?lo ?hi" d "groupby_sum df"] inside [OF that] that
    by (simp add: date_range_def groupby_sum_lookup)
  have absent: "map_of (map (\<lambda>p. (ds p, y p)) ?grid) d = Some 0"
    if "?lo \<le> d" "d \<le> ?hi" "d \<notin> ?D" for d
    using reindex_lookup [of "date_range ?lo ?hi" d "groupby_sum df"] that
    by (simp add: date_range_def groupby_sum_lookup)
  show ?thesis
    using run len dates srt dist present absent by blast
qed

theorem grid_builder_correct_witness:
  "log0 \<noteq> [] \<and>
   (\<exists>grid. load_and_preprocess_data (Some log0) = Inr (Some grid)
      \<and> length grid = 5 \<and> map ds grid = [1, 2, 3, 4, 5]
      \<and> map y grid = [5, 0, 25 / 2, 0, 1]
      \<and> map_of (map (\<lambda>p. (ds p, y p)) grid) 3 = Some (group_sum log0 3)
      \<and> map_of (map (\<lambda>p. (ds p, y p)) grid) 4 = Some 0)"
proof -
  have ne: "log0 \<noteq> []"
    by (simp add: log0_def)
  from grid_builder_correct [OF ne] obtain grid where
    g: "load_and_preprocess_data (Some log0) = Inr (Some grid)"
    by blast
  with log0_run have
    "grid = [\<lparr>ds = 1, y = 5\<rparr>, \<lparr>ds = 2, y = 0\<rparr>, \<lparr>ds = 3, y = 25 / 2\<rparr>,
             \<lparr>ds = 4, y = 0\<rparr>, \<lparr>ds = 5, y = 1\<rparr>]"
    by simp
  with g ne show ?thesis
    by (simp add: group_sum_def log0_def)
qed

section \<open>Anomaly detection: a run on the stand-ins\<close>

lemma demo_run: "detect_anomalies stl_demo iforest_demo g grid4 = ([], Inr demo_rows)"
  by (simp add: detect_anomalies_def stl_demo_def iforest_demo_def grid4_def align_def
      variance_def stl_flag_def scored_row_def classify_def gt0_def lt0_def demo_rows_def
      List.map_filter_def Let_def power2_eq_square)

section \<open>Anomaly detection: the decomposition threshold\<close>

lemma stl_flag_threshold:
  assumes "0 \<le> v"
  shows "stl_flag (Some x) (Some v) = (if \<bar>x\<bar> > 3 * sqrt v then 1 else 0)"
proof -
  have nn: "0 \<le> 3 * sqrt v"
    using assms by simp
  have "\<bar>x\<bar> \<le> 3 * sqrt v \<longleftrightarrow> \<bar>x\<bar> \<le> \<bar>3 * sqrt v\<bar>"
    using nn by simp
  also have "\<dots> \<longleftrightarrow> x\<^sup>2 \<le> (3 * sqrt v)\<^sup>2"
    by (rule abs_le_square_iff)
  also have "(3 * sqrt v)\<^sup>2 = 9 * v"
    using assms by (simp add: power_mult_distrib)
  finally have "\<bar>x\<bar> > 3 * sqrt v \<longleftrightarrow> x\<^sup>2 > 9 * v"
    by (simp add: not_le [symmetric])
  then show ?thesis
    by (simp add: stl_flag_def)
qed

section \<open>Anomaly detection: a failed decomposition\<close>

text \<open>Whatever the series and the outlier model: when the decomposition raises, the
  warning is shown and the function is left by a KeyError.\<close>

lemma detect_anomalies_stl_failure:
  "STL (map y data) 7 True = Inl e \<Longrightarrow>
     detect_anomalies STL IForest g data =
       ([''Warning: STL decomposition failed. '' @ e], Inl (KeyError ''residuals''))"
  by (simp add: detect_anomalies_def Let_def)

text \<open>
  C2. The claim is that after a failed decomposition the operation warns and goes on to
  the outlier model with the feature vector \<open>[value]\<close>, without raising. On the three-day
  grid \<open>grid3\<close> with a decomposition that fails, the warning is shown and the operation
  raises \<open>KeyError('residuals')\<close>: no row is scored.
\<close>

theorem detect_anomalies_fallback_raises:
  "detect_anomalies stl_raises iforest_demo 0 grid3 =
     ([''Warning: STL decomposition failed. decomposition failed''],
      Inl (KeyError ''residuals''))"
  by (simp add: detect_anomalies_def stl_raises_def Let_def)

section \<open>Anomaly detection: the direction of an anomaly\<close>

lemma scored_rows_classified:
  "r \<in> set (scored_rows ps rs fs ss ls) \<Longrightarrow>
     anomaly_type r = classify (iforest_anomaly r) (residuals r)"
  by (induction ps rs fs ss ls rule: scored_rows.induct) (auto simp: scored_row_def)

lemma detect_anomalies_classified:
  assumes "detect_anomalies STL IForest g data = (w, Inr rows)" and "r \<in> set rows"
  shows "anomaly_type r = classify (iforest_anomaly r) (residuals r)"
  using assms
  by (auto simp: detect_anomalies_def Let_def scored_rows_classified
      split: sum.splits prod.splits if_splits)

lemma classify_cases:
  "classify l r =
     (if l = 1 then (case r of None \<Rightarrow> None
                     | Some x \<Rightarrow> if x > 0 then Some Spike else if x < 0 then Some Drop else None)
      else None)"
  by (auto simp: classify_def gt0_def lt0_def Let_def split: option.splits)

lemma direction_partition:
  "mset (filter (\<lambda>r. anomaly_type r = Some Spike) xs)
     + mset (filter (\<lambda>r. anomaly_type r = Some Drop) xs)
     + mset (filter (\<lambda>r. anomaly_type r = None) xs) = mset xs" for xs :: "scored list"
proof (induction xs)
  case Nil
  show ?case by simp
next
  case (Cons a xs)
  then show ?case
    by (cases "anomaly_type a" rule: option.exhaust; cases "the (anomaly_type a)") auto
qed

text \<open>
  C5. In every frame \<open>detect_anomalies\<close> returns, a row flagged by the outlier model
  (\<open>iforest_anomaly = 1\<close>) is a Spike exactly when its residual is there and positive, a
  Drop exactly when it is there and negative, and without a direction exactly when the
  residual is NaN or 0; a row that is not flagged has no direction. The spikes, the
  drops and the flagged rows without a direction together are the flagged rows, each
  once.
\<close>

theorem anomaly_classifier_direction:
  assumes "detect_anomalies STL IForest g data = (w, Inr rows)"
  shows "(\<forall>r \<in> set rows.
            (iforest_anomaly r = 1 \<longrightarrow>
               (anomaly_type r = Some Spike \<longleftrightarrow> (\<exists>x. residuals r = Some x \<and> x > 0)) \<and>
               (anomaly_type r = Some Drop \<longleftrightarrow> (\<exists>x. residuals r = Some x \<and> x < 0)) \<and>
               (anomaly_type r = None \<longleftrightarrow> residuals r = None \<or> residuals r = Some 0)) \<and>
            (iforest_anomaly r \<noteq> 1 \<longrightarrow> anomaly_type r = None))
       \<and> mset (spikes rows) + mset (drops rows)
            + mset (filter (\<lambda>r. anomaly_type r = None) (anomalies rows)) = mset (anomalies rows)"
proof -
  have each: "anomaly_type r = classify (iforest_anomaly r) (residuals r)" if "r \<in> set rows" for r
    using detect_anomalies_classified [OF assms that] .
  have dir: "(iforest_anomaly r = 1 \<longrightarrow>
               (anomaly_type r = Some Spike \<longleftrightarrow> (\<exists>x. residuals r = Some x \<and> x > 0)) \<and>
               (anomaly_type r = Some Drop \<longleftrightarrow> (\<exists>x. residuals r = Some x \<and> x < 0)) \<and>
               (anomaly_type r = None \<longleftrightarrow> residuals r = None \<or> residuals r = Some 0)) \<and>
            (iforest_anomaly r \<noteq> 1 \<longrightarrow> anomaly_type r = None)" if "r \<in> set rows" for r
    unfolding each [OF that] classify_cases by (cases "residuals r") auto
  show ?thesis
    using dir direction_partition [of "anomalies rows"] by (simp add: spikes_def drops_def)
qed

theorem anomaly_classifier_direction_witness:
  "detect_anomalies stl_demo iforest_demo 0 grid4 = ([], Inr demo_rows) \<and>
   map iforest_anomaly demo_rows = [1, 1, 1, 0] \<and>
   map residuals demo_rows = [Some 0, Some 9900, Some (- 100), Some (- 10)] \<and>
   map anomaly_type demo_rows = [None, Some Spike, Some Drop, None] \<and>
   mset (spikes demo_rows) + mset (drops demo_rows)
     + mset (filter (\<lambda>r. anomaly_type r = None) (anomalies demo_rows))
     = mset (anomalies demo_rows)"
  using anomaly_classifier_direction [OF demo_run [of 0]] demo_run [of 0]
  by (simp add: demo_rows_def)

section \<open>The table of the top anomalies\<close>

lemma top_anomalies_tied: "map ds (top_anomalies tied) = [1, 3]"
  by (simp add: top_anomalies_def sort_values_desc_def tied_def)

lemma sorted_desc_sort_values:
  "sorted_wrt (\<lambda>a b. col a \<ge> col b) (sort_values_desc col rows)"
proof -
  have "sorted (map col (sort_key col (rev rows)))"
    by simp
  then have "sorted_wrt (\<lambda>a b. col a \<le> col b) (sort_key col (rev rows))"
    by (simp add: sorted_map)
  then show ?thesis
    unfolding sort_values_desc_def by (simp add: sorted_wrt_rev)
qed

text \<open>
  C6, as stated: the table holds the flagged rows, descending by score, equal scores
  with the most recent date first. Two flagged rows of equal score, of day 1 and day 3,
  come out with day 1 first.
\<close>

theorem top_anomalies_ties_counterexample: "\<not> by_score_then_recent (top_anomalies tied)"
  by (simp add: by_score_then_recent_def top_anomalies_def sort_values_desc_def tied_def)

text \<open>
  C6, amended: the table holds exactly the flagged rows, each as often as the frame
  does, in descending order of the score. The date takes no part in the order.
\<close>

theorem top_anomalies_ranked:
  "mset (top_anomalies rows) = mset (filter (\<lambda>r. iforest_anomaly r = 1) rows) \<and>
   sorted_wrt (\<lambda>a b. iforest_anomaly_score a \<ge> iforest_anomaly_score b) (top_anomalies rows)"
  by (simp add: top_anomalies_def sorted_desc_sort_values) (simp add: sort_values_desc_def)

section \<open>Anomaly detection: two runs\<close>

lemma iforest_demo_honours: "honours_random_state iforest_demo"
  by (simp add: honours_random_state_def iforest_demo_def)

lemma iforest_demo_unseeded:
  "iforest_demo c None 0 [[Some 1]] \<noteq> iforest_demo c None 1 [[Some 1]]"
  by (simp add: iforest_demo_def)

text \<open>
  C8. With an outlier model that honours \<open>random_state\<close>, two runs of
  \<open>detect_anomalies\<close> on the same input, whatever the state of the process-wide random
  generator in each, return the same warnings and the same frame, scores and labels
  included, or raise the same exception: the function fixes \<open>random_state=42\<close> and draws
  on no other source of randomness.
\<close>

theorem outlier_scorer_deterministic:
  assumes "honours_random_state IForest"
  shows "detect_anomalies STL IForest g data = detect_anomalies STL IForest g' data"
proof -
  have seeded: "IForest (5 / 100) (Some 42) g = IForest (5 / 100) (Some 42) g'"
    using assms unfolding honours_random_state_def by blast
  show ?thesis
    unfolding detect_anomalies_def seeded by (rule refl)
qed

theorem outlier_scorer_deterministic_witness:
  "honours_random_state iforest_demo \<and>
   detect_anomalies stl_demo iforest_demo 0 grid4 = detect_anomalies stl_demo iforest_demo 7 grid4 \<and>
   detect_anomalies stl_demo iforest_demo 7 grid4 = ([], Inr demo_rows)"
  using outlier_scorer_deterministic [OF iforest_demo_honours, of stl_demo 0 grid4 7]
    iforest_demo_honours demo_run [of 7]
  by simp

section \<open>Batch forecast runner: lemmas\<close>

lemma drop_duplicates_set: "set (drop_duplicates seen xs) = set xs - set seen"
  by (induction seen xs rule: drop_duplicates.induct) auto

lemma drop_duplicates_distinct: "distinct (drop_duplicates seen xs)"
  by (induction seen xs rule: drop_duplicates.induct) (auto simp: drop_duplicates_set)

lemma all_pairs_distinct: "distinct (all_pairs df)"
  by (simp add: all_pairs_def drop_duplicates_distinct)

lemma all_pairs_set: "set (all_pairs df) = (\<lambda>r. (store r, item r)) ` set df"
  by (simp add: all_pairs_def drop_duplicates_set)

lemma forecast_loop_Inr:
  "forecast_loop L df pairs acc g = (Inr fs, g') \<Longrightarrow>
     \<exists>per. fs = acc @ per \<and> list_all2 (forecast_of L df) pairs per"
proof (induction L df pairs acc g arbitrary: fs rule: forecast_loop.induct)
  case (1 L df all_forecasts g)
  then show ?case by simp
next
  case (2 L df s i pairs all_forecasts g)
  from "2.prems" obtain m g1 forecast g2 where
    m: "fit L (series_of df s i) g = (Inr m, g1)" and
    f: "predict L m (make_future_dataframe L m 365) g1 = (Inr forecast, g2)" and
    rest: "forecast_loop L df pairs (all_forecasts @ [map (with_key s i) forecast]) g2 = (Inr fs, g')"
    by (auto simp: Let_def split: sum.splits prod.splits)
  from "2.IH" [OF refl m [symmetric] refl refl f [symmetric] refl rest] obtain per where
    per: "fs = (all_forecasts @ [map (with_key s i) forecast]) @ per"
      "list_all2 (forecast_of L df) pairs per"
    by blast
  have "forecast_of L df (s, i) (map (with_key s i) forecast)"
    unfolding forecast_of_def fst_conv snd_conv using m f by blast
  with per show ?case
    by (intro exI [of _ "map (with_key s i) forecast # per"]) simp
qed

lemma forecast_loop_Inl:
  "(s, i) \<in> set pairs \<Longrightarrow> \<forall>g'. \<exists>e. fst (fit L (series_of df s i) g') = Inl e \<Longrightarrow>
     \<exists>e'. fst (forecast_loop L df pairs acc g) = Inl e'"
proof (induction L df pairs acc g rule: forecast_loop.induct)
  case (1 L df all_forecasts g)
  then show ?case by simp
next
  case (2 L df s' i' pairs all_forecasts g)
  show ?case
  proof (cases "fit L (series_of df s' i') g")
    case (Pair r g1)
    note fit_here = this
    show ?thesis
    proof (cases r)
      case (Inl e)
      with fit_here show ?thesis by (simp add: Let_def)
    next
      case (Inr m)
      note m = fit_here [unfolded Inr]
      show ?thesis
      proof (cases "predict L m (make_future_dataframe L m 365) g1")
        case (Pair r2 g2)
        note pred_here = this
        show ?thesis
        proof (cases r2)
          case (Inl e)
          with m pred_here show ?thesis by (simp add: Let_def)
        next
          case (Inr forecast)
          note f = pred_here [unfolded Inr]
          have "(s, i) \<noteq> (s', i')"
          proof
            assume "(s, i) = (s', i')"
            then have "fst (fit L (series_of df s i) g) = Inr m"
              using m by simp
            moreover from "2.prems"(2) obtain e where
              "fst (fit L (series_of df s i) g) = Inl e"
              by blast
            ultimately show False
              by simp
          qed
          with "2.prems"(1) have mem: "(s, i) \<in> set pairs"
            by auto
          from "2.IH" [OF refl m [symmetric] refl refl f [symmetric] refl mem "2.prems"(2)]
          show ?thesis
            using m f by (simp add: Let_def)
        qed
      qed
    qed
  qed
qed

lemma forecast_loop_append:
  "forecast_loop L df (pre @ rest) acc g =
     (case forecast_loop L df pre acc g of
        (Inl e, g') \<Rightarrow> (Inl e, g')
      | (Inr acc', g') \<Rightarrow> forecast_loop L df rest acc' g')"
proof (induction L df pre acc g rule: forecast_loop.induct)
  case (1 L df all_forecasts g)
  show ?case by simp
next
  case (2 L df s i pairs all_forecasts g)
  show ?case
  proof (cases "fit L (series_of df s i) g")
    case (Pair r g1)
    note fit_here = this
    show ?thesis
    proof (cases r)
      case (Inl e)
      with fit_here show ?thesis by (simp add: Let_def)
    next
      case (Inr m)
      note m = fit_here [unfolded Inr]
      show ?thesis
      proof (cases "predict L m (make_future_dataframe L m 365) g1")
        case (Pair r2 g2)
        note pred_here = this
        show ?thesis
        proof (cases r2)
          case (Inl e)
          with m pred_here show ?thesis by (simp add: Let_def)
        next
          case (Inr forecast)
          note f = pred_here [unfolded Inr]
          from "2.IH" [OF refl m [symmetric] refl refl f [symmetric] refl]
          show ?thesis
            using m f by (simp add: Let_def)
        qed
      qed
    qed
  qed
qed

lemma forecast_loop_aborts:
  assumes "forecast_loop L df pre [] g = (Inr acc, g1)"
    and "fit L (series_of df s i) g1 = (Inl e, g2)"
  shows "forecast_loop L df (pre @ (s, i) # post) [] g = (Inl e, g2)"
  using assms by (simp add: forecast_loop_append Let_def)

lemma forecast_loop_total:
  "\<forall>k \<in> set pairs. \<forall>g. \<exists>m g1 forecast g2.
       fit L (series_of df (fst k) (snd k)) g = (Inr m, g1) \<and>
       predict L m (make_future_dataframe L m 365) g1 = (Inr forecast, g2) \<Longrightarrow>
     \<exists>fs g'. forecast_loop L df pairs acc g = (Inr fs, g') \<and>
        length fs = length acc + length pairs"
proof (induction L df pairs acc g rule: forecast_loop.induct)
  case (1 L df all_forecasts g)
  then show ?case by simp
next
  case (2 L df s i pairs all_forecasts g)
  from "2.prems" obtain m g1 forecast g2 where
    m: "fit L (series_of df s i) g = (Inr m, g1)" and
    f: "predict L m (make_future_dataframe L m 365) g1 = (Inr forecast, g2)"
    by fastforce
  from "2.prems" have rest: "\<forall>k \<in> set pairs. \<forall>g. \<exists>m g1 forecast g2.
       fit L (series_of df (fst k) (snd k)) g = (Inr m, g1) \<and>
       predict L m (make_future_dataframe L m 365) g1 = (Inr forecast, g2)"
    by simp
  from "2.IH" [OF refl m [symmetric] refl refl f [symmetric] refl rest] m f show ?case
    by (auto simp: Let_def)
qed

lemma with_key_key: "store (with_key s i p) = s \<and> item (with_key s i p) = i"
  by (simp add: with_key_def)

lemma filter_concat_forecasts:
  assumes "list_all2 (forecast_of L df) pairs per" and "distinct pairs" and "(s, i) \<in> set pairs"
  shows "\<exists>rows. forecast_of L df (s, i) rows \<and>
           filter (\<lambda>r. store r = s \<and> item r = i) (concat per) = rows"
  using assms
proof (induction pairs per rule: list_all2_induct)
  case Nil
  then show ?case by simp
next
  case (Cons k pairs rows per)
  have other: "filter (\<lambda>r. store r = s \<and> item r = i) rows' = []"
    if "forecast_of L df k' rows'" "k' \<noteq> (s, i)" for k' rows'
    using that by (cases k') (auto simp: forecast_of_def with_key_key filter_empty_conv)
  have same: "filter (\<lambda>r. store r = s \<and> item r = i) rows' = rows'"
    if "forecast_of L df (s, i) rows'" for rows'
    using that by (auto simp: forecast_of_def with_key_key)
  have rest_empty: "filter (\<lambda>r. store r = s \<and> item r = i) (concat per) = []"
    if "(s, i) \<notin> set pairs"
    using Cons.hyps(2) that
  proof (induction pairs per rule: list_all2_induct)
    case Nil
    then show ?case by simp
  next
    case (Cons k' ks r' rs)
    then show ?case using other [of k' r'] by auto
  qed
  show ?case
  proof (cases "k = (s, i)")
    case True
    with Cons.prems have "(s, i) \<notin> set pairs" by simp
    from rest_empty [OF this] same [of rows] Cons.hyps(1) True show ?thesis
      by auto
  next
    case False
    with Cons.prems have "distinct pairs" "(s, i) \<in> set pairs" by auto
    from Cons.IH [OF this] other [OF Cons.hyps(1) False] show ?thesis
      by auto
  qed
qed

text \<open>
  C3, amended: a series of the dataset whose fit fails (in whatever state the generator
  is) makes the whole of \<open>load_and_forecast_data\<close> fail: the exception is not caught and
  no failure is recorded. In a given run, when the series before it are fitted and
  predicted and the fit of the next one fails, the function raises that exception. And
  whenever the function returns the combined forecast, every series of the dataset was
  fitted and predicted, and the rows of the combined forecast with its key are exactly
  its forecast.
\<close>

theorem batch_runner_all_or_nothing:
  "(\<forall>s i. (s, i) \<in> set (all_pairs df) \<and>
            (\<forall>g'. \<exists>e. fst (fit L (series_of df s i) g') = Inl e) \<longrightarrow>
       (\<exists>e'. fst (load_and_forecast_data L (Some df) g) = Inl e'))
   \<and> (\<forall>pre s i post acc g1 e g2.
         all_pairs df = pre @ (s, i) # post \<and>
         forecast_loop L df pre [] g = (Inr acc, g1) \<and>
         fit L (series_of df s i) g1 = (Inl e, g2) \<longrightarrow>
         load_and_forecast_data L (Some df) g = (Inl e, g2))
   \<and> (\<forall>df_data forecast_df.
         fst (load_and_forecast_data L (Some df) g) = Inr (df_data, Some forecast_df) \<longrightarrow>
        (\<forall>(s, i) \<in> set (all_pairs df).
           \<exists>rows. forecast_of L df (s, i) rows \<and>
             filter (\<lambda>r. store r = s \<and> item r = i) forecast_df = rows))"
proof (intro conjI allI impI)
  fix s i
  assume h: "(s, i) \<in> set (all_pairs df) \<and>
            (\<forall>g'. \<exists>e. fst (fit L (series_of df s i) g') = Inl e)"
  from h have mem: "(s, i) \<in> set (all_pairs df)"
    by (rule conjunct1)
  from h have fails: "\<forall>g'. \<exists>e. fst (fit L (series_of df s i) g') = Inl e"
    by (rule conjunct2)
  from forecast_loop_Inl [OF mem fails] obtain e' where
    e': "fst (forecast_loop L df (all_pairs df) [] g) = Inl e'"
    by blast
  obtain r g' where loop: "forecast_loop L df (all_pairs df) [] g = (r, g')"
    by (rule prod.exhaust)
  with e' have "r = Inl e'"
    by simp
  with loop show "\<exists>e'. fst (load_and_forecast_data L (Some df) g) = Inl e'"
    by (simp add: load_and_forecast_data_def)
next
  fix pre s i post acc g1 e g2
  assume h: "all_pairs df = pre @ (s, i) # post \<and>
         forecast_loop L df pre [] g = (Inr acc, g1) \<and>
         fit L (series_of df s i) g1 = (Inl e, g2)"
  then have "forecast_loop L df (all_pairs df) [] g = (Inl e, g2)"
    using forecast_loop_aborts [of L df pre g acc g1 s i e g2 post] by simp
  then show "load_and_forecast_data L (Some df) g = (Inl e, g2)"
    by (simp add: load_and_forecast_data_def)
next
  fix df_data forecast_df
  assume ok: "fst (load_and_forecast_data L (Some df) g) = Inr (df_data, Some forecast_df)"
  obtain r g' where loop: "forecast_loop L df (all_pairs df) [] g = (r, g')"
    by (rule prod.exhaust)
  from ok loop obtain fs where r: "r = Inr fs" and out: "forecast_df = concat fs"
    by (cases r) (simp_all add: load_and_forecast_data_def split: if_splits)
  from forecast_loop_Inr [OF loop [unfolded r]]
  have all: "list_all2 (forecast_of L df) (all_pairs df) fs"
    by simp
  show "\<forall>(s, i) \<in> set (all_pairs df).
           \<exists>rows. forecast_of L df (s, i) rows \<and>
             filter (\<lambda>r. store r = s \<and> item r = i) forecast_df = rows"
  proof (clarify)
    fix s i assume "(s, i) \<in> set (all_pairs df)"
    from filter_concat_forecasts [OF all all_pairs_distinct this] show
      "\<exists>rows. forecast_of L df (s, i) rows \<and>
             filter (\<lambda>r. store r = s \<and> item r = i) forecast_df = rows"
      unfolding out .
  qed
qed

lemma two_series_pairs: "all_pairs two_series = [(1, 1), (1, 2)]"
  by (simp add: all_pairs_def two_series_def sale_row_def)

lemma two_series_first_fits:
  "fit prophet_demo (series_of two_series 1 1) g =
     (Inr [sale_row 1 1 1 10, sale_row 1 1 2 12], g)"
  by (simp add: prophet_demo_def series_of_def two_series_def sale_row_def)

lemma two_series_second_fails:
  "fit prophet_demo (series_of two_series 1 2) g =
     (Inl (ValueError ''Dataframe has less than 2 non-NaN rows.''), g)"
  by (simp add: prophet_demo_def series_of_def two_series_def sale_row_def)

lemma prophet_demo_predict:
  "\<exists>forecast. predict prophet_demo m future g = (Inr forecast, Suc g)"
  by (simp add: prophet_demo_def Let_def)

text \<open>
  C3, as stated: a fit failure on one series leaves the forecasts of the other series in
  the combined output. On \<open>two_series\<close> the series of store 1, item 1 is fitted, the
  one-row series of store 1, item 2 is refused, and the function raises: there is no
  combined output.
\<close>

theorem batch_runner_isolation_counterexample:
  "fst (fit prophet_demo (series_of two_series 1 1) 0) =
     Inr [sale_row 1 1 1 10, sale_row 1 1 2 12] \<and>
   fst (load_and_forecast_data prophet_demo (Some two_series) 0) =
     Inl (ValueError ''Dataframe has less than 2 non-NaN rows.'')"
proof -
  obtain forecast where
    "predict prophet_demo [sale_row 1 1 1 10, sale_row 1 1 2 12]
       (make_future_dataframe prophet_demo [sale_row 1 1 1 10, sale_row 1 1 2 12] 365) 0
       = (Inr forecast, Suc 0)"
    using prophet_demo_predict by blast
  then have "forecast_loop prophet_demo two_series [(1, 1), (1, 2)] [] 0 =
      (Inl (ValueError ''Dataframe has less than 2 non-NaN rows.''), Suc 0)"
    using two_series_first_fits two_series_second_fails by (simp add: Let_def)
  then show ?thesis
    using two_series_first_fits by (simp add: load_and_forecast_data_def two_series_pairs)
qed

section \<open>The stand-in library on the example datasets\<close>

lemma drop_duplicates_seen:
  "k \<in> set seen \<Longrightarrow> drop_duplicates seen (replicate n k @ ys) = drop_duplicates seen ys"
  by (induction n) simp_all

lemma history_keys: "map (\<lambda>r. (store r, item r)) history = replicate 1200 (1, 1)"
  by (simp add: history_def sale_row_def comp_def map_replicate_const)

lemma replicate_1200: "replicate 1200 k = k # replicate 1199 k"
proof -
  have "(1200::nat) = Suc 1199" by simp
  then show ?thesis by (simp only: replicate_Suc)
qed

lemma history_length: "length history = 1200"
  by (simp add: history_def)

lemma history_series: "filter (\<lambda>r. store r = 1 \<and> item r = 1) history = history"
  by (simp add: history_def sale_row_def filter_map comp_def)

lemma history_not_series:
  "(s, i) \<noteq> (1, 1) \<Longrightarrow> filter (\<lambda>r. store r = s \<and> item r = i) history = []"
  by (auto simp: history_def sale_row_def filter_empty_conv)

lemma good_series_pairs: "all_pairs good_series = [(1, 1), (2, 1)]"
  by (simp add: all_pairs_def good_series_def history_keys replicate_1200
      drop_duplicates_seen sale_row_def)

lemma other_series_pairs: "all_pairs other_series = [(3, 5), (1, 1), (4, 5)]"
  by (simp add: all_pairs_def other_series_def history_keys replicate_1200
      drop_duplicates_seen sale_row_def)

lemma good_series_sample: "series_of good_series 1 1 = history"
  by (simp add: series_of_def good_series_def history_series sale_row_def)

lemma other_series_sample: "series_of other_series 1 1 = history"
  by (simp add: series_of_def other_series_def history_series sale_row_def)

lemma good_series_second: "series_of good_series 2 1 = [sale_row 2 1 1 7, sale_row 2 1 2 9]"
  by (simp add: series_of_def good_series_def history_not_series sale_row_def)

lemma other_series_first: "series_of other_series 3 5 = [sale_row 3 5 1 4, sale_row 3 5 2 6]"
  by (simp add: series_of_def other_series_def history_not_series sale_row_def)

lemma other_series_third: "series_of other_series 4 5 = [sale_row 4 5 1 3, sale_row 4 5 2 5]"
  by (simp add: series_of_def other_series_def history_not_series sale_row_def)

lemma prophet_demo_fit:
  "2 \<le> length h \<Longrightarrow> fit prophet_demo h g = (Inr h, g)"
  by (simp add: prophet_demo_def)

lemma prophet_demo_loop:
  "\<forall>k \<in> set pairs. 2 \<le> length (series_of df (fst k) (snd k)) \<Longrightarrow>
     \<exists>fs. forecast_loop prophet_demo df pairs acc g = (Inr fs, g + length pairs) \<and>
        length fs = length acc + length pairs"
proof (induction pairs arbitrary: acc g)
  case Nil
  then show ?case by simp
next
  case (Cons k pairs)
  obtain s i where k: "k = (s, i)"
    by (cases k)
  from Cons.prems k have len: "2 \<le> length (series_of df s i)"
    by simp
  obtain forecast where
    f: "predict prophet_demo (series_of df s i)
          (make_future_dataframe prophet_demo (series_of df s i) 365) g = (Inr forecast, Suc g)"
    using prophet_demo_predict by blast
  from Cons.prems have "\<forall>k \<in> set pairs. 2 \<le> length (series_of df (fst k) (snd k))"
    by simp
  from Cons.IH [OF this, of "acc @ [map (with_key s i) forecast]" "Suc g"]
  show ?case
    using prophet_demo_fit [OF len] f k by (simp add: Let_def)
qed

lemma prophet_demo_load:
  assumes "all_pairs df \<noteq> []"
    and "\<forall>k \<in> set (all_pairs df). 2 \<le> length (series_of df (fst k) (snd k))"
  shows "\<exists>f. load_and_forecast_data prophet_demo (Some df) g =
           (Inr (Some df, Some f), g + length (all_pairs df))"
proof -
  from prophet_demo_loop [OF assms(2), of "[]" g] obtain fs where
    fs: "forecast_loop prophet_demo df (all_pairs df) [] g = (Inr fs, g + length (all_pairs df))"
      "length fs = length (all_pairs df)"
    by auto
  from fs(2) assms(1) have "fs \<noteq> []"
    by auto
  with fs(1) show ?thesis
    by (simp add: load_and_forecast_data_def)
qed

lemma good_series_loads:
  "\<exists>f. load_and_forecast_data prophet_demo (Some good_series) g =
     (Inr (Some good_series, Some f), g + 2)"
proof -
  have ne: "all_pairs good_series \<noteq> []"
    by (simp add: good_series_pairs)
  have long: "\<forall>k \<in> set (all_pairs good_series).
      2 \<le> length (series_of good_series (fst k) (snd k))"
    by (simp add: good_series_pairs good_series_sample good_series_second history_length)
  have "length (all_pairs good_series) = 2"
    by (simp add: good_series_pairs)
  with prophet_demo_load [OF ne long, of g] show ?thesis
    by simp
qed

lemma other_series_loads:
  "\<exists>f. load_and_forecast_data prophet_demo (Some other_series) g =
     (Inr (Some other_series, Some f), g + 3)"
proof -
  have ne: "all_pairs other_series \<noteq> []"
    by (simp add: other_series_pairs)
  have long: "\<forall>k \<in> set (all_pairs other_series).
      2 \<le> length (series_of other_series (fst k) (snd k))"
    by (simp add: other_series_pairs other_series_sample other_series_first
        other_series_third history_length)
  have "length (all_pairs other_series) = 3"
    by (simp add: other_series_pairs)
  with prophet_demo_load [OF ne long, of g] show ?thesis
    by simp
qed

lemma history_backtest:
  "series_of df 1 1 = history \<Longrightarrow>
     get_backtest_metrics prophet_demo df g = (Inr (1095, 180, 90, 1200, g), Suc g)"
  by (simp add: get_backtest_metrics_def prophet_demo_def history_length)

section \<open>One run, when the data loads\<close>

lemma run_script_first_load:
  assumes "load_and_forecast_data L file g = (Inr (Some df, Some f), g1)" and "\<not> button w"
  shows "fst (run_script L file w (fresh g)) =
    \<lparr>cache_forecast = Some (Some df, Some f), cache_backtest = [], df_metrics = None,
     calls = [Ran_load_and_forecast_data], generator = g1\<rparr>"
  using assms
  by (simp add: run_script_def cached_load_and_forecast_data_def fresh_def Let_def)

lemma run_script_click:
  assumes "cache_forecast a = Some (Some df, Some f)" and "map_of (cache_backtest a) df = None"
    and "button w" and "get_backtest_metrics L df (generator a) = (Inr m, g')"
  shows "df_metrics (fst (run_script L file w a)) = Some m"
  using assms
  by (simp add: run_script_def cached_load_and_forecast_data_def
      cached_get_backtest_metrics_def Let_def)

lemma good_series_session:
  "df_metrics (session prophet_demo (Some good_series) [w_load, w_click] (fresh 0)) =
     Some (1095, 180, 90, 1200, 2)"
proof -
  from good_series_loads [of 0] obtain f where
    f: "load_and_forecast_data prophet_demo (Some good_series) 0 =
          (Inr (Some good_series, Some f), 2)"
    by auto
  have nb: "\<not> button w_load" and b: "button w_click"
    by (simp_all add: w_load_def w_click_def)
  show ?thesis
    using run_script_click [OF _ _ b history_backtest [OF good_series_sample]]
    by (simp add: run_script_first_load [OF f nb])
qed

lemma other_series_session:
  "df_metrics (session prophet_demo (Some other_series) [w_load, w_click] (fresh 0)) =
     Some (1095, 180, 90, 1200, 3)"
proof -
  from other_series_loads [of 0] obtain f where
    f: "load_and_forecast_data prophet_demo (Some other_series) 0 =
          (Inr (Some other_series, Some f), 3)"
    by auto
  have nb: "\<not> button w_load" and b: "button w_click"
    by (simp_all add: w_load_def w_click_def)
  show ?thesis
    using run_script_click [OF _ _ b history_backtest [OF other_series_sample]]
    by (simp add: run_script_first_load [OF f nb])
qed

theorem batch_runner_all_or_nothing_witness:
  "(1, 2) \<in> set (all_pairs two_series) \<and>
   fit prophet_demo (series_of two_series 1 2) 0 =
     (Inl (ValueError ''Dataframe has less than 2 non-NaN rows.''), 0) \<and>
   (\<exists>e'. fst (load_and_forecast_data prophet_demo (Some two_series) 0) = Inl e') \<and>
   load_and_forecast_data prophet_demo (Some two_series) 0 =
     (Inl (ValueError ''Dataframe has less than 2 non-NaN rows.''), 1) \<and>
   (\<exists>forecast_df.
      fst (load_and_forecast_data prophet_demo (Some good_series) 0) =
        Inr (Some good_series, Some forecast_df) \<and>
      (\<exists>rows. forecast_of prophet_demo good_series (2, 1) rows \<and>
         filter (\<lambda>r. store r = 2 \<and> item r = 1) forecast_df = rows))"
proof -
  have mem: "(1, 2) \<in> set (all_pairs two_series)"
    by (simp add: two_series_pairs)
  have refused: "\<forall>g'. \<exists>e. fst (fit prophet_demo (series_of two_series 1 2) g') = Inl e"
    by (simp add: two_series_second_fails)
  from batch_runner_all_or_nothing [of two_series prophet_demo 0] mem refused
  have fails: "\<exists>e'. fst (load_and_forecast_data prophet_demo (Some two_series) 0) = Inl e'"
    by blast
  have "\<forall>k \<in> set [(1, 1)]. 2 \<le> length (series_of two_series (fst k) (snd k))"
    by (simp add: series_of_def two_series_def sale_row_def)
  from prophet_demo_loop [OF this, of "[]" 0] obtain acc where
    before: "forecast_loop prophet_demo two_series [(1, 1)] [] 0 = (Inr acc, 1)"
    by auto
  have split: "all_pairs two_series = [(1, 1)] @ (1, 2) # []"
    by (simp add: two_series_pairs)
  from batch_runner_all_or_nothing [of two_series prophet_demo 0] split before
    two_series_second_fails [of 1]
  have exact: "load_and_forecast_data prophet_demo (Some two_series) 0 =
     (Inl (ValueError ''Dataframe has less than 2 non-NaN rows.''), 1)"
    by blast
  from good_series_loads [of 0] obtain f where
    f: "fst (load_and_forecast_data prophet_demo (Some good_series) 0) =
          Inr (Some good_series, Some f)"
    by auto
  have "(2, 1) \<in> set (all_pairs good_series)"
    by (simp add: good_series_pairs)
  with batch_runner_all_or_nothing [of good_series prophet_demo 0] f
  have "\<exists>rows. forecast_of prophet_demo good_series (2, 1) rows \<and>
         filter (\<lambda>r. store r = 2 \<and> item r = 1) f = rows"
    by blast
  with mem two_series_second_fails [of 0] fails exact f show ?thesis
    by blast
qed

section \<open>The session: what is computed when\<close>

lemma cached_load_frame:
  assumes "cached_load_and_forecast_data L file a = (a1, r)"
  shows "df_metrics a1 = df_metrics a \<and> cache_backtest a1 = cache_backtest a \<and>
         (Ran_get_backtest_metrics \<in> set (calls a1) \<longleftrightarrow>
            Ran_get_backtest_metrics \<in> set (calls a))"
  using assms
  by (auto simp: cached_load_and_forecast_data_def Let_def
      split: option.splits sum.splits prod.splits)

lemma run_script_no_button_state:
  assumes "\<not> button w"
  shows "fst (run_script L file w a) = fst (cached_load_and_forecast_data L file a)"
proof (cases "cached_load_and_forecast_data L file a")
  case (Pair a1 r)
  then show ?thesis
    using assms
    by (simp add: run_script_def Let_def split: sum.splits option.splits prod.splits)
qed

lemma run_script_no_button:
  assumes "\<not> button w"
  shows "df_metrics (fst (run_script L file w a)) = df_metrics a"
proof (cases "cached_load_and_forecast_data L file a")
  case (Pair a1 r)
  with cached_load_frame [OF Pair] run_script_no_button_state [OF assms, of L "file" a]
  show ?thesis by simp
qed

lemma run_script_no_button_calls:
  assumes "\<not> button w"
  shows "Ran_get_backtest_metrics \<in> set (calls (fst (run_script L file w a))) \<longleftrightarrow>
         Ran_get_backtest_metrics \<in> set (calls a)"
proof (cases "cached_load_and_forecast_data L file a")
  case (Pair a1 r)
  with cached_load_frame [OF Pair] run_script_no_button_state [OF assms, of L "file" a]
  show ?thesis by simp
qed

lemma untriggered_run:
  "untriggered clicked a \<Longrightarrow> untriggered (clicked \<or> button w) (fst (run_script L file w a))"
  by (cases "button w")
    (simp_all add: untriggered_def run_script_no_button run_script_no_button_calls)

lemma untriggered_session:
  "untriggered clicked a \<Longrightarrow>
     untriggered (clicked \<or> (\<exists>w \<in> set ws. button w)) (session L file ws a)"
proof (induction ws arbitrary: a clicked)
  case Nil
  then show ?case by simp
next
  case (Cons w ws)
  from Cons.IH [OF untriggered_run [OF Cons.prems, of w]] show ?case
    by (simp add: disj_assoc)
qed

lemma first_run_calls:
  "\<not> button w \<Longrightarrow> calls (fst (run_script L file w (fresh g))) = [Ran_load_and_forecast_data]"
  by (cases "load_and_forecast_data L file g")
    (simp add: run_script_no_button_state cached_load_and_forecast_data_def fresh_def Let_def
      split: sum.splits)

lemma run_script_button_page:
  assumes "button w" and "run_script L file w a = (a', Inr (Some page))"
  shows "df_metrics a' \<noteq> None \<and> metrics_shown page = df_metrics a'"
proof -
  obtain a1 r where c: "cached_load_and_forecast_data L file a = (a1, r)"
    by (rule prod.exhaust)
  from assms c obtain df_data df_forecast where r: "r = Inr (Some df_data, Some df_forecast)"
    by (cases r; simp add: run_script_def Let_def split: option.splits prod.splits)
  obtain a2 r2 where c2: "cached_get_backtest_metrics L df_data a1 = (a2, r2)"
    by (rule prod.exhaust)
  from assms c r c2 show ?thesis
    by (cases r2) (auto simp: run_script_def Let_def)
qed

lemma triggered_run:
  assumes loads: "always_loads L file df_data" and bts: "always_backtests L df_data"
    and inv: "triggered L df_data clicked a"
  shows "triggered L df_data (clicked \<or> button w) (fst (run_script L file w a))"
proof -
  obtain a1 r where c: "cached_load_and_forecast_data L file a = (a1, r)"
    by (rule prod.exhaust)
  from inv have snd: "cache_sound L df_data a"
    by (simp add: triggered_def)
  have frame: "df_metrics a1 = df_metrics a" "cache_backtest a1 = cache_backtest a"
    using cached_load_frame [OF c] by simp_all
  have loaded: "\<exists>f. r = Inr (Some df_data, Some f) \<and> cache_forecast a1 = Some (Some df_data, Some f)"
  proof (cases "cache_forecast a")
    case (Some v)
    with snd obtain f where "v = (Some df_data, Some f)"
      by (auto simp: cache_sound_def)
    with Some c show ?thesis
      by (auto simp: cached_load_and_forecast_data_def)
  next
    case None
    from loads obtain f g' where
      "load_and_forecast_data L file (generator a) = (Inr (Some df_data, Some f), g')"
      unfolding always_loads_def by blast
    with None c show ?thesis
      by (auto simp: cached_load_and_forecast_data_def Let_def)
  qed
  then obtain f where r: "r = Inr (Some df_data, Some f)"
    and cf: "cache_forecast a1 = Some (Some df_data, Some f)"
    by blast
  have s1: "cache_sound L df_data a1"
    using snd frame cf by (simp add: cache_sound_def)
  show ?thesis
  proof (cases "button w")
    case False
    then have "fst (run_script L file w a) = a1"
      using c by (simp add: run_script_no_button_state)
    with inv s1 frame False show ?thesis
      by (simp add: triggered_def)
  next
    case True
    obtain a2 r2 where c2: "cached_get_backtest_metrics L df_data a1 = (a2, r2)"
      by (rule prod.exhaust)
    have hit: "\<exists>m. r2 = Inr m \<and> backtest_of L df_data m \<and> cache_sound L df_data a2"
    proof (cases "map_of (cache_backtest a1) df_data")
      case (Some v)
      with s1 have "backtest_of L df_data v"
        by (simp add: cache_sound_def)
      with Some c2 s1 show ?thesis
        by (auto simp: cached_get_backtest_metrics_def)
    next
      case None
      from bts obtain m g' where
        m: "get_backtest_metrics L df_data (generator a1) = (Inr m, g')"
        unfolding always_backtests_def by blast
      then have bm: "backtest_of L df_data m"
        unfolding backtest_of_def by blast
      from None c2 m have "r2 = Inr m" and
        a2: "a2 = a1\<lparr>calls := calls a1 @ [Ran_get_backtest_metrics], generator := g',
                      cache_backtest := (df_data, m) # cache_backtest a1\<rparr>"
        by (auto simp: cached_get_backtest_metrics_def Let_def)
      moreover have "cache_sound L df_data a2"
        using s1 bm unfolding a2 by (simp add: cache_sound_def)
      ultimately show ?thesis
        using bm by blast
    qed
    then obtain m where r2: "r2 = Inr m" and bm: "backtest_of L df_data m"
      and s2: "cache_sound L df_data a2"
      by blast
    have "fst (run_script L file w a) = a2\<lparr>df_metrics := Some m\<rparr>"
      using c r c2 r2 True by (simp add: run_script_def Let_def)
    then show ?thesis
      using s2 bm by (simp add: triggered_def cache_sound_def)
  qed
qed

lemma triggered_session:
  assumes "always_loads L file df_data" and "always_backtests L df_data"
  shows "triggered L df_data clicked a \<Longrightarrow>
     triggered L df_data (clicked \<or> (\<exists>w \<in> set ws. button w)) (session L file ws a)"
proof (induction ws arbitrary: a clicked)
  case Nil
  then show ?case by simp
next
  case (Cons w ws)
  from Cons.IH [OF triggered_run [OF assms Cons.prems, of w]] show ?case
    by (simp add: disj_assoc)
qed

lemma fresh_invariants:
  "untriggered False (fresh g)" "triggered L df_data False (fresh g)"
  by (simp_all add: untriggered_def triggered_def cache_sound_def fresh_def)

text \<open>
  C9. The entry \<open>df_metrics\<close> of the session state is absent at the start. On the load
  (a first run not started by the button) the body of \<open>load_and_forecast_data\<close> is
  executed and that of \<open>get_backtest_metrics\<close> is not. As long as no run of the session
  was started by the button, the entry stays absent and \<open>get_backtest_metrics\<close> has not
  been executed; a run not started by the button never changes the entry; a run started
  by the button that reaches its end leaves the entry set, to the metrics it shows; and
  once a run of the session was started by the button, with a library that loads the
  data and returns from the backtest, the entry holds metrics that
  \<open>get_backtest_metrics\<close> returned.
\<close>

theorem backtest_on_demand:
  "df_metrics (fresh g0 :: ('p, 'g) app) = None
   \<and> (\<forall>w. \<not> button w \<longrightarrow>
         calls (fst (run_script L file w (fresh g0 :: ('p, 'g) app)))
           = [Ran_load_and_forecast_data] \<and>
         df_metrics (fst (run_script L file w (fresh g0 :: ('p, 'g) app))) = None)
   \<and> (\<forall>ws. (\<forall>w \<in> set ws. \<not> button w) \<longrightarrow>
         df_metrics (session L file ws (fresh g0 :: ('p, 'g) app)) = None \<and>
         Ran_get_backtest_metrics \<notin> set (calls (session L file ws (fresh g0 :: ('p, 'g) app))))
   \<and> (\<forall>w (a :: ('p, 'g) app). \<not> button w \<longrightarrow>
         df_metrics (fst (run_script L file w a)) = df_metrics a)
   \<and> (\<forall>w (a :: ('p, 'g) app) a' page.
         button w \<and> run_script L file w a = (a', Inr (Some page)) \<longrightarrow>
         df_metrics a' \<noteq> None \<and> metrics_shown page = df_metrics a')
   \<and> (\<forall>ws df_data.
         (\<exists>w \<in> set ws. button w) \<and> always_loads L file df_data \<and>
         always_backtests L df_data \<longrightarrow>
         (\<exists>m. df_metrics (session L file ws (fresh g0 :: ('p, 'g) app)) = Some m \<and>
              backtest_of L df_data m))"
proof (intro conjI allI impI)
  show "df_metrics (fresh g0 :: ('p, 'g) app) = None"
    by (simp add: fresh_def)
next
  fix w :: widgets assume "\<not> button w"
  then show "calls (fst (run_script L file w (fresh g0 :: ('p, 'g) app)))
      = [Ran_load_and_forecast_data]"
    by (rule first_run_calls)
next
  fix w :: widgets assume "\<not> button w"
  then show "df_metrics (fst (run_script L file w (fresh g0 :: ('p, 'g) app))) = None"
    by (simp add: run_script_no_button fresh_def)
next
  fix ws :: "widgets list" assume none: "\<forall>w \<in> set ws. \<not> button w"
  have "untriggered (False \<or> (\<exists>w \<in> set ws. button w))
      (session L file ws (fresh g0 :: ('p, 'g) app))"
    by (rule untriggered_session [OF fresh_invariants(1)])
  with none show "df_metrics (session L file ws (fresh g0 :: ('p, 'g) app)) = None"
    by (simp add: untriggered_def)
next
  fix ws :: "widgets list" assume none: "\<forall>w \<in> set ws. \<not> button w"
  have "untriggered (False \<or> (\<exists>w \<in> set ws. button w))
      (session L file ws (fresh g0 :: ('p, 'g) app))"
    by (rule untriggered_session [OF fresh_invariants(1)])
  with none show
    "Ran_get_backtest_metrics \<notin> set (calls (session L file ws (fresh g0 :: ('p, 'g) app)))"
    by (simp add: untriggered_def)
next
  fix w :: widgets and a :: "('p, 'g) app" assume "\<not> button w"
  then show "df_metrics (fst (run_script L file w a)) = df_metrics a"
    by (rule run_script_no_button)
next
  fix w :: widgets and a a' :: "('p, 'g) app" and page
  assume h: "button w \<and> run_script L file w a = (a', Inr (Some page))"
  then show "df_metrics a' \<noteq> None"
    using run_script_button_page by blast
next
  fix w :: widgets and a a' :: "('p, 'g) app" and page
  assume h: "button w \<and> run_script L file w a = (a', Inr (Some page))"
  then show "metrics_shown page = df_metrics a'"
    using run_script_button_page by blast
next
  fix ws :: "widgets list" and df_data
  assume h: "(\<exists>w \<in> set ws. button w) \<and> always_loads L file df_data \<and>
         always_backtests L df_data"
  then have clicked: "\<exists>w \<in> set ws. button w" and loads: "always_loads L file df_data"
    and bts: "always_backtests L df_data"
    by simp_all
  have "triggered L df_data (False \<or> (\<exists>w \<in> set ws. button w))
      (session L file ws (fresh g0 :: ('p, 'g) app))"
    by (rule triggered_session [OF loads bts fresh_invariants(2)])
  with clicked show "\<exists>m. df_metrics (session L file ws (fresh g0 :: ('p, 'g) app)) = Some m \<and>
              backtest_of L df_data m"
    by (simp add: triggered_def)
qed

lemma prophet_demo_always_loads: "always_loads prophet_demo (Some good_series) good_series"
  unfolding always_loads_def using good_series_loads by blast

lemma prophet_demo_always_backtests: "always_backtests prophet_demo good_series"
  unfolding always_backtests_def using history_backtest [OF good_series_sample] by blast

theorem backtest_on_demand_witness:
  "calls (fst (run_script prophet_demo (Some good_series) w_load (fresh 0)))
     = [Ran_load_and_forecast_data] \<and>
   df_metrics (session prophet_demo (Some good_series) [w_load, w_load] (fresh 0)) = None \<and>
   df_metrics (session prophet_demo (Some good_series) [w_load, w_click] (fresh 0))
     = Some (1095, 180, 90, 1200, 2) \<and>
   backtest_of prophet_demo good_series (1095, 180, 90, 1200, 2)"
proof -
  note inst = backtest_on_demand [of 0 prophet_demo "Some good_series"]
  have a: "\<not> button w_load" and b: "button w_click"
    by (simp_all add: w_load_def w_click_def)
  from inst a have 1: "calls (fst (run_script prophet_demo (Some good_series) w_load (fresh 0)))
      = [Ran_load_and_forecast_data]"
    by blast
  have "\<forall>w \<in> set [w_load, w_load]. \<not> button w"
    using a by simp
  with inst have 2:
    "df_metrics (session prophet_demo (Some good_series) [w_load, w_load] (fresh 0)) = None"
    by blast
  have "\<exists>w \<in> set [w_load, w_click]. button w"
    using b by simp
  with inst prophet_demo_always_loads prophet_demo_always_backtests
  have "\<exists>m. df_metrics (session prophet_demo (Some good_series) [w_load, w_click] (fresh 0))
          = Some m \<and> backtest_of prophet_demo good_series m"
    by blast
  with good_series_session have 3:
    "df_metrics (session prophet_demo (Some good_series) [w_load, w_click] (fresh 0))
       = Some (1095, 180, 90, 1200, 2) \<and>
     backtest_of prophet_demo good_series (1095, 180, 90, 1200, 2)"
    by simp
  from 1 2 3 show ?thesis
    by blast
qed

section \<open>The backtest reads one series, and the generator\<close>

lemma get_backtest_metrics_cong:
  "series_of df1 1 1 = series_of df2 1 1 \<Longrightarrow>
     get_backtest_metrics L df1 g = get_backtest_metrics L df2 g"
  by (simp add: get_backtest_metrics_def)

lemma run_script_selection:
  assumes "button w = button w'"
  shows "fst (run_script L file w a) = fst (run_script L file w' a)"
proof -
  obtain a1 r where c: "cached_load_and_forecast_data L file a = (a1, r)"
    by (rule prod.exhaust)
  show ?thesis
  proof (cases "\<exists>df_data df_forecast. r = Inr (Some df_data, Some df_forecast)")
    case False
    with c show ?thesis
      by (auto simp: run_script_def split: sum.splits option.splits prod.splits)
  next
    case True
    then obtain df_data df_forecast where r: "r = Inr (Some df_data, Some df_forecast)"
      by blast
    obtain a2 r2 where c2: "cached_get_backtest_metrics L df_data a1 = (a2, r2)"
      by (rule prod.exhaust)
    from c r c2 assms show ?thesis
      by (cases r2) (simp_all add: run_script_def Let_def)
  qed
qed

text \<open>
  C10, as stated: two datasets with the same rows of store 1, item 1 give the same metric
  rows, whatever the other series and the selection. \<open>good_series\<close> and \<open>other_series\<close>
  have the same rows of store 1, item 1; in two sessions that start with the generator
  in the same state and go through the same two runs, a load and a click with the same
  selection, the metrics differ: the forecasts of the other series, one in the first
  dataset and two in the second, have drawn from the generator before the backtest
  does.
\<close>

theorem backtest_noninterference_counterexample:
  "series_of good_series 1 1 = series_of other_series 1 1 \<and>
   df_metrics (session prophet_demo (Some good_series) [w_load, w_click] (fresh 0))
     = Some (1095, 180, 90, 1200, 2) \<and>
   df_metrics (session prophet_demo (Some other_series) [w_load, w_click] (fresh 0))
     = Some (1095, 180, 90, 1200, 3) \<and>
   df_metrics (session prophet_demo (Some good_series) [w_load, w_click] (fresh 0))
     \<noteq> df_metrics (session prophet_demo (Some other_series) [w_load, w_click] (fresh 0))"
  unfolding good_series_session other_series_session good_series_sample other_series_sample
  by simp

text \<open>
  C10, amended: \<open>get_backtest_metrics\<close> depends only on the rows of store 1, item 1 and
  on the state of the process-wide random generator in which it is called: on two
  datasets with the same such rows and in the same state of the generator it returns the
  same metrics or raises the same exception, and leaves the generator in the same state.
  The selected store and item have no influence: two runs that differ only in the
  selection leave the same state, the entry \<open>df_metrics\<close> included.
\<close>

theorem backtest_noninterference:
  assumes "series_of df1 1 1 = series_of df2 1 1"
  shows "get_backtest_metrics L df1 g = get_backtest_metrics L df2 g
    \<and> (\<forall>w w' (a :: ('p, 'g) app).
          button w = button w' \<longrightarrow>
          fst (run_script L file w a) = fst (run_script L file w' a))"
proof (intro conjI allI impI)
  show "get_backtest_metrics L df1 g = get_backtest_metrics L df2 g"
    using assms by (rule get_backtest_metrics_cong)
next
  fix w w' :: widgets and a :: "('p, 'g) app"
  assume "button w = button w'"
  then show "fst (run_script L file w a) = fst (run_script L file w' a)"
    by (rule run_script_selection)
qed

theorem backtest_noninterference_witness:
  "series_of good_series 1 1 = series_of other_series 1 1 \<and>
   good_series \<noteq> other_series \<and>
   get_backtest_metrics prophet_demo good_series 5 = (Inr (1095, 180, 90, 1200, 5), 6) \<and>
   get_backtest_metrics prophet_demo other_series 5 = (Inr (1095, 180, 90, 1200, 5), 6) \<and>
   button w_click = button w_other_click \<and>
   fst (run_script prophet_demo (Some good_series) w_click (fresh 0)) =
     fst (run_script prophet_demo (Some good_series) w_other_click (fresh 0))"
proof -
  have agree: "series_of good_series 1 1 = series_of other_series 1 1"
    by (simp add: good_series_sample other_series_sample)
  have "length good_series \<noteq> length other_series"
    by (simp add: good_series_def other_series_def history_length)
  then have differ: "good_series \<noteq> other_series"
    by auto
  note inst = backtest_noninterference [OF agree, of prophet_demo 5 "Some good_series"]
  from inst have eq: "get_backtest_metrics prophet_demo good_series 5 =
      get_backtest_metrics prophet_demo other_series 5"
    by blast
  have clicks: "button w_click = button w_other_click"
    by (simp add: w_click_def w_other_click_def)
  with inst have sel: "fst (run_script prophet_demo (Some good_series) w_click (fresh 0)) =
     fst (run_script prophet_demo (Some good_series) w_other_click (fresh 0))"
    by blast
  have val: "get_backtest_metrics prophet_demo good_series 5 = (Inr (1095, 180, 90, 1200, 5), 6)"
    using history_backtest [OF good_series_sample, of 5] by simp
  with agree differ eq clicks sel show ?thesis
    by simp
qed

end
